theory Spec2Isabelle
  imports Main "HOL-Library.AList"
begin

section \<open>JavaScript values\<close>

text \<open>
  The library is untyped at run time, so the model works on JavaScript values.
  An object is the list of its own enumerable string-keyed properties in the order
  they were defined (which is the enumeration order for keys that are not array
  indices); a JavaScript object never holds a key twice, so the key list of an object
  is distinct (theorems that depend on this say so). A function value carries an
  identity and its declared parameter count (the \<^verbatim>\<open>length\<close> property). \<open>Thunk f p\<close> is
  the arrow function \<^verbatim>\<open>() => f(p)\<close>, the only closure over data that the library
  builds. Numbers are restricted to integers (no NaN, no fractions); prototype chains
  and non-enumerable properties are not modelled, and a key function is a total
  function (one that throws is outside the model).
\<close>

datatype jsval =
    Undefined
  | Null
  | Boolean bool
  | Num int
  | Str string
  | Arr "jsval list"
  | Obj "(string \<times> jsval) list"
  | Fn nat nat
  | Thunk jsval jsval

datatype error = TypeError

text \<open>Truthiness, as the operator \<^verbatim>\<open>||\<close> tests it.\<close>

fun truthy :: "jsval \<Rightarrow> bool" where
  "truthy Undefined = False"
| "truthy Null = False"
| "truthy (Boolean b) = b"
| "truthy (Num n) = (n \<noteq> 0)"
| "truthy (Str s) = (s \<noteq> [])"
| "truthy (Arr xs) = True"
| "truthy (Obj ps) = True"
| "truthy (Fn i n) = True"
| "truthy (Thunk f p) = True"

definition js_or :: "jsval \<Rightarrow> jsval \<Rightarrow> jsval" where
  "js_or a b = (if truthy a then a else b)"

text \<open>\<^verbatim>\<open>typeof v === 'function'\<close> and \<^verbatim>\<open>v.length\<close> of a function.\<close>

fun typeof_function :: "jsval \<Rightarrow> bool" where
  "typeof_function (Fn i n) = True"
| "typeof_function (Thunk f p) = True"
| "typeof_function v = False"

fun fn_length :: "jsval \<Rightarrow> nat" where
  "fn_length (Fn i n) = n"
| "fn_length v = 0"

text \<open>What a function value does when it is called with no argument: the call it makes.\<close>

fun invoke :: "jsval \<Rightarrow> (jsval \<times> jsval list) option" where
  "invoke (Thunk f p) = Some (f, [p])"
| "invoke v = None"

text \<open>Decimal notation of an array index, the property key of an element.\<close>

fun index_key :: "nat \<Rightarrow> string" where
  "index_key n =
     (if n < 10 then [''0123456789'' ! n]
      else index_key (n div 10) @ [''0123456789'' ! (n mod 10)])"

text \<open>The own enumerable properties of a value, in enumeration order.\<close>

fun own_props :: "jsval \<Rightarrow> (string \<times> jsval) list" where
  "own_props (Obj ps) = ps"
| "own_props (Arr xs) = zip (map index_key [0..<length xs]) xs"
| "own_props (Str s) = zip (map index_key [0..<length s]) (map (\<lambda>c. Str [c]) s)"
| "own_props v = []"

text \<open>\<^verbatim>\<open>Object.keys(v)\<close>: a TypeError on \<^verbatim>\<open>undefined\<close> and \<^verbatim>\<open>null\<close>.\<close>

fun object_keys :: "jsval \<Rightarrow> error + string list" where
  "object_keys Undefined = Inl TypeError"
| "object_keys Null = Inl TypeError"
| "object_keys v = Inr (map fst (own_props v))"

text \<open>\<^verbatim>\<open>v[k]\<close> on a value that is neither \<^verbatim>\<open>undefined\<close> nor \<^verbatim>\<open>null\<close>.\<close>

definition get_prop :: "jsval \<Rightarrow> string \<Rightarrow> jsval" where
  "get_prop v k = (case map_of (own_props v) k of Some x \<Rightarrow> x | None \<Rightarrow> Undefined)"

text \<open>Optional chaining \<^verbatim>\<open>v?.k\<close>.\<close>

definition opt_get :: "jsval \<Rightarrow> string \<Rightarrow> jsval" where
  "opt_get v k = (if v = Undefined \<or> v = Null then Undefined else get_prop v k)"

text \<open>
  \<^verbatim>\<open>...v\<close> inside an object literal: every own enumerable property of \<open>v\<close> is
  defined on the object under construction, in order; a key already there keeps its
  place and takes the new value. Spreading \<^verbatim>\<open>undefined\<close> or \<^verbatim>\<open>null\<close> adds nothing.
\<close>

definition spread :: "jsval \<Rightarrow> (string \<times> jsval) list \<Rightarrow> (string \<times> jsval) list" where
  "spread v acc = fold (\<lambda>(k, x). AList.update k x) (own_props v) acc"

section \<open>create-use-query.ts\<close>

text \<open>
  \<^verbatim>\<open>const computedKey = queryKey?.(params) || options?.queryKey || [];\<close>
  The optional key function is an \<open>option\<close>.
\<close>

definition computedKey :: "(jsval \<Rightarrow> jsval) option \<Rightarrow> jsval \<Rightarrow> jsval \<Rightarrow> jsval" where
  "computedKey queryKeyFn params options =
     js_or (js_or (case queryKeyFn of None \<Rightarrow> Undefined | Some f \<Rightarrow> f params)
                  (opt_get options ''queryKey''))
           (Arr [])"

definition getOptions :: "bool \<Rightarrow> jsval \<Rightarrow> jsval \<Rightarrow> jsval" where
  "getOptions expectsParams params options = (if expectsParams then options else params)"

text \<open>
  The hook returned by \<^verbatim>\<open>createUseQuery(expectsParams, serviceFn, queryKey)\<close>, applied to
  its two arguments (a missing argument is \<open>Undefined\<close>). The external runtime's
  \<^verbatim>\<open>useQuery\<close> is the first parameter; the hook hands it one object.
\<close>

definition createUseQuery ::
  "(jsval \<Rightarrow> 'q) \<Rightarrow> bool \<Rightarrow> jsval \<Rightarrow> (jsval \<Rightarrow> jsval) option \<Rightarrow> jsval \<Rightarrow> jsval \<Rightarrow> 'q" where
  "createUseQuery tanstack_useQuery expectsParams serviceFn queryKeyFn params options =
     tanstack_useQuery
       (Obj (AList.update ''queryKey'' (computedKey queryKeyFn params options)
              (spread (getOptions expectsParams params options)
                 [(''queryFn'', Thunk serviceFn params)])))"

text \<open>The variant under \<^verbatim>\<open>lib/\<close> takes its three settings as one object.\<close>

record createUseQuery_params =
  p_expectsParams :: bool
  p_serviceFn :: jsval
  p_queryKey :: "(jsval \<Rightarrow> jsval) option"

definition lib_createUseQuery ::
  "(jsval \<Rightarrow> 'q) \<Rightarrow> createUseQuery_params \<Rightarrow> jsval \<Rightarrow> jsval \<Rightarrow> 'q" where
  "lib_createUseQuery tanstack_useQuery cfg params options =
     (let queryKeyFn = p_queryKey cfg;
          expectsParams = p_expectsParams cfg;
          serviceFn = p_serviceFn cfg
      in tanstack_useQuery
           (Obj (AList.update ''queryKey'' (computedKey queryKeyFn params options)
                  (spread (getOptions expectsParams params options)
                     [(''queryFn'', Thunk serviceFn params)]))))"

section \<open>create-use-mutation.ts\<close>

definition createUseMutation :: "(jsval \<Rightarrow> 'm) \<Rightarrow> jsval \<Rightarrow> jsval \<Rightarrow> 'm" where
  "createUseMutation tanstack_useMutation serviceFn options =
     tanstack_useMutation (Obj (spread options [(''mutationFn'', serviceFn)]))"

section \<open>create-queries-from-service.ts\<close>

record ('q, 'm) triad =
  useQuery :: "jsval \<Rightarrow> jsval \<Rightarrow> 'q"
  useMutation :: "jsval \<Rightarrow> 'm"
  queryKey :: "jsval \<Rightarrow> jsval"

text \<open>The body of the \<^verbatim>\<open>forEach\<close> callback: one key of the service, the accumulator threaded.\<close>

definition forEach_key ::
  "(jsval \<Rightarrow> 'q) \<Rightarrow> (jsval \<Rightarrow> 'm) \<Rightarrow> jsval \<Rightarrow> string \<Rightarrow> string
     \<Rightarrow> (string \<times> ('q, 'm) triad) list \<Rightarrow> (string \<times> ('q, 'm) triad) list" where
  "forEach_key tanstack_useQuery tanstack_useMutation service queryKeyPrefix key queries =
     (let serviceFn = get_prop service key in
      if typeof_function serviceFn then
        (let expectsParams = (fn_length serviceFn > 0) in
         if expectsParams then
           AList.update key
             \<lparr> useQuery = createUseQuery tanstack_useQuery True serviceFn
                   (Some (\<lambda>params. Arr [Str queryKeyPrefix, Str key, params])),
               useMutation = createUseMutation tanstack_useMutation serviceFn,
               queryKey = (\<lambda>params. Arr [Str queryKeyPrefix, Str key, params]) \<rparr>
             queries
         else
           AList.update key
             \<lparr> useQuery = createUseQuery tanstack_useQuery False serviceFn
                   (Some (\<lambda>params. Arr [Str queryKeyPrefix, Str key, params])),
               useMutation = createUseMutation tanstack_useMutation serviceFn,
               queryKey = (\<lambda>params. Arr [Str queryKeyPrefix, Str key, params]) \<rparr>
             queries)
      else queries)"

definition createQueriesFromService ::
  "(jsval \<Rightarrow> 'q) \<Rightarrow> (jsval \<Rightarrow> 'm) \<Rightarrow> jsval \<Rightarrow> string
     \<Rightarrow> error + (string \<times> ('q, 'm) triad) list" where
  "createQueriesFromService tanstack_useQuery tanstack_useMutation service queryKeyPrefix =
     (case object_keys service of
        Inl e \<Rightarrow> Inl e
      | Inr keys \<Rightarrow>
          Inr (fold (forEach_key tanstack_useQuery tanstack_useMutation service queryKeyPrefix)
                 keys []))"

text \<open>
  Reading one operation off the compiled table, as the callers' destructuring
  \<^verbatim>\<open>const { getData } = createQueriesFromService(service, prefix)\<close> does.
\<close>

definition triad_of ::
  "error + (string \<times> ('q, 'm) triad) list \<Rightarrow> string \<Rightarrow> ('q, 'm) triad option" where
  "triad_of result name = (case result of Inl e \<Rightarrow> None | Inr queries \<Rightarrow> map_of queries name)"

text \<open>
  The runtime's type \<^verbatim>\<open>QueryKey\<close> is \<^verbatim>\<open>ReadonlyArray<unknown>\<close>: a value of that type is
  an array.
\<close>

fun is_QueryKey :: "jsval \<Rightarrow> bool" where
  "is_QueryKey (Arr xs) = True"
| "is_QueryKey v = False"

section \<open>Structural equality\<close>

text \<open>
  Deep equality of two values, as the spec's "structurally equal" means it: arrays
  element by element, objects by their key sets and the values under each key (the order
  of the properties is irrelevant), everything else by identity of the value.
\<close>

fun struct_eq :: "jsval \<Rightarrow> jsval \<Rightarrow> bool" where
  "struct_eq (Arr xs) (Arr ys) = list_all2 struct_eq xs ys"
| "struct_eq (Obj ps) (Obj qs) =
     (set (map fst ps) = set (map fst qs) \<and>
      (\<forall>(k, v) \<in> set ps. \<forall>(k', v') \<in> set qs. k = k' \<longrightarrow> struct_eq v v'))"
| "struct_eq a b = (a = b)"

section \<open>The compiled table\<close>

lemma forEach_key_simp:
  "forEach_key uq um service ns key queries =
     (if typeof_function (get_prop service key) then
        AList.update key
          \<lparr> useQuery = createUseQuery uq (0 < fn_length (get_prop service key)) (get_prop service key)
                (Some (\<lambda>params. Arr [Str ns, Str key, params])),
            useMutation = createUseMutation um (get_prop service key),
            queryKey = (\<lambda>params. Arr [Str ns, Str key, params]) \<rparr>
          queries
      else queries)"
  by (simp add: forEach_key_def Let_def)

lemma fold_forEach_lookup:
  "map_of (fold (forEach_key uq um service ns) keys acc) k =
     (if k \<in> set keys \<and> typeof_function (get_prop service k) then
        Some \<lparr> useQuery = createUseQuery uq (0 < fn_length (get_prop service k)) (get_prop service k)
                (Some (\<lambda>params. Arr [Str ns, Str k, params])),
            useMutation = createUseMutation um (get_prop service k),
            queryKey = (\<lambda>params. Arr [Str ns, Str k, params]) \<rparr>
      else map_of acc k)"
proof (induction keys arbitrary: acc)
  case Nil
  show ?case by simp
next
  case (Cons key keys)
  let ?F = "forEach_key uq um service ns"
  have step: "map_of (?F key acc) k =
     (if k = key \<and> typeof_function (get_prop service k) then
        Some \<lparr> useQuery = createUseQuery uq (0 < fn_length (get_prop service k)) (get_prop service k)
                (Some (\<lambda>params. Arr [Str ns, Str k, params])),
            useMutation = createUseMutation um (get_prop service k),
            queryKey = (\<lambda>params. Arr [Str ns, Str k, params]) \<rparr>
      else map_of acc k)"
    by (auto simp add: forEach_key_simp update_conv')
  have "map_of (fold ?F (key # keys) acc) k = map_of (fold ?F keys (?F key acc)) k"
    by simp
  then show ?case
    unfolding Cons.IH [of "?F key acc"] step by auto
qed

lemma fold_forEach_keys:
  "distinct keys \<Longrightarrow> set keys \<inter> set (map fst acc) = {} \<Longrightarrow>
   map fst (fold (forEach_key uq um service ns) keys acc) =
     map fst acc @ filter (\<lambda>k. typeof_function (get_prop service k)) keys"
proof (induction keys arbitrary: acc)
  case Nil
  show ?case by simp
next
  case (Cons key keys)
  let ?F = "forEach_key uq um service ns"
  have step: "map fst (?F key acc) =
      map fst acc @ (if typeof_function (get_prop service key) then [key] else [])"
    using Cons.prems(2) by (simp add: forEach_key_simp update_keys)
  have disj: "set keys \<inter> set (map fst (?F key acc)) = {}"
    using Cons.prems unfolding step by auto
  have "map fst (fold ?F (key # keys) acc) = map fst (fold ?F keys (?F key acc))"
    by simp
  also have "\<dots> = map fst (?F key acc) @ filter (\<lambda>k. typeof_function (get_prop service k)) keys"
    using Cons.prems(1) disj by (intro Cons.IH) simp_all
  finally show ?case unfolding step by simp
qed

lemma compiled_lookup:
  assumes "createQueriesFromService uq um service ns = Inr queries"
  shows "map_of queries k =
     (if k \<in> set (map fst (own_props service)) \<and> typeof_function (get_prop service k) then
        Some \<lparr> useQuery = createUseQuery uq (0 < fn_length (get_prop service k)) (get_prop service k)
                (Some (\<lambda>params. Arr [Str ns, Str k, params])),
            useMutation = createUseMutation um (get_prop service k),
            queryKey = (\<lambda>params. Arr [Str ns, Str k, params]) \<rparr>
      else None)"
proof -
  have keys: "object_keys service = Inr (map fst (own_props service))"
    using assms by (cases service) (simp_all add: createQueriesFromService_def)
  have "queries = fold (forEach_key uq um service ns) (map fst (own_props service)) []"
    using assms by (simp add: createQueriesFromService_def keys)
  then show ?thesis
    by (simp only: fold_forEach_lookup) simp
qed

lemma compiled_total:
  assumes "service \<noteq> Undefined" "service \<noteq> Null"
  shows "createQueriesFromService uq um service ns =
     Inr (fold (forEach_key uq um service ns) (map fst (own_props service)) [])"
  using assms by (cases service) (simp_all add: createQueriesFromService_def)

section \<open>The object handed to the runtime\<close>

lemma map_of_fold_update:
  "distinct (map fst ps) \<Longrightarrow>
   map_of (fold (\<lambda>(k, x). AList.update k x) ps acc) k =
     (case map_of ps k of Some x \<Rightarrow> Some x | None \<Rightarrow> map_of acc k)"
proof (induction ps arbitrary: acc)
  case Nil
  show ?case by simp
next
  case (Cons a ps)
  obtain k' x' where a: "a = (k', x')" by (cases a)
  have notin: "map_of ps k' = None"
    using Cons.prems by (simp add: a map_of_eq_None_iff)
  show ?case
    using Cons.prems notin by (auto simp add: a Cons.IH update_conv' split: option.splits)
qed

lemma map_of_spread:
  "distinct (map fst (own_props v)) \<Longrightarrow>
   map_of (spread v acc) k =
     (case map_of (own_props v) k of Some x \<Rightarrow> Some x | None \<Rightarrow> map_of acc k)"
  unfolding spread_def by (rule map_of_fold_update)

lemma createUseQuery_runtime:
  "createUseQuery rt e f kf p opts = rt (createUseQuery (\<lambda>x. x) e f kf p opts)"
  by (simp add: createUseQuery_def)

lemma createUseMutation_runtime:
  "createUseMutation rt f opts = rt (createUseMutation (\<lambda>x. x) f opts)"
  by (simp add: createUseMutation_def)

lemma read_object_queryKey:
  "get_prop (createUseQuery (\<lambda>x. x) e f kf p opts) ''queryKey'' = computedKey kf p opts"
  by (simp add: createUseQuery_def get_prop_def update_conv')

lemma map_of_fold_update_notin:
  "k \<notin> set (map fst ps) \<Longrightarrow>
   map_of (fold (\<lambda>(k, x). AList.update k x) ps acc) k = map_of acc k"
proof (induction ps arbitrary: acc)
  case Nil
  show ?case by simp
next
  case (Cons a ps)
  obtain k' x' where a: "a = (k', x')" by (cases a)
  show ?case
    using Cons.prems by (simp add: a Cons.IH update_conv')
qed

lemma read_object_other:
  assumes "distinct (map fst (own_props (getOptions e p opts)))" and "k \<noteq> ''queryKey''"
  shows "map_of (own_props (createUseQuery (\<lambda>x. x) e f kf p opts)) k =
     (case map_of (own_props (getOptions e p opts)) k of
        Some x \<Rightarrow> Some x
      | None \<Rightarrow> if k = ''queryFn'' then Some (Thunk f p) else None)"
  using assms(2)
  by (auto simp add: createUseQuery_def update_conv' map_of_spread [OF assms(1)]
        split: option.splits)

lemma read_object_queryFn_default:
  assumes "''queryFn'' \<notin> set (map fst (own_props (getOptions e p opts)))"
  shows "get_prop (createUseQuery (\<lambda>x. x) e f kf p opts) ''queryFn'' = Thunk f p"
  using assms
  by (simp add: createUseQuery_def get_prop_def update_conv' spread_def map_of_fold_update_notin)

lemma write_object:
  assumes "distinct (map fst (own_props opts))"
  shows "map_of (own_props (createUseMutation (\<lambda>x. x) f opts)) k =
     (case map_of (own_props opts) k of
        Some x \<Rightarrow> Some x
      | None \<Rightarrow> if k = ''mutationFn'' then Some f else None)"
  by (auto simp add: createUseMutation_def map_of_spread [OF assms] split: option.splits)

lemma is_QueryKey_truthy: "is_QueryKey v \<Longrightarrow> truthy v"
  by (cases v) simp_all

lemma lib_createUseQuery_eq:
  "lib_createUseQuery rt cfg p opts =
     createUseQuery rt (p_expectsParams cfg) (p_serviceFn cfg) (p_queryKey cfg) p opts"
  by (simp add: lib_createUseQuery_def createUseQuery_def Let_def)

lemma computedKey_None:
  "computedKey None p opts = js_or (opt_get opts ''queryKey'') (Arr [])"
  by (simp add: computedKey_def js_or_def)

text \<open>The definitions a concrete run unfolds.\<close>

lemmas run_defs =
  triad_of_def createQueriesFromService_def forEach_key_def get_prop_def opt_get_def
  createUseQuery_def lib_createUseQuery_def createUseMutation_def spread_def
  computedKey_def getOptions_def js_or_def Let_def

section \<open>Claims\<close>

subsection \<open>C1: the default key\<close>

text \<open>
  Claim C1. For every function-valued entry \<open>operation\<close> of a service compiled under the
  namespace \<open>ns\<close>, the compiled table holds a triad whose key function returns exactly
  the array \<open>[ns, operation, parameter]\<close> for every parameter; called with no argument
  (the parameter is then \<open>undefined\<close>) it returns \<open>[ns, operation, undefined]\<close>.
\<close>

theorem default_key_triple:
  assumes "service \<noteq> Undefined" and "service \<noteq> Null"
    and "operation \<in> set (map fst (own_props service))"
    and "typeof_function (get_prop service operation)"
  shows "\<exists>queries t.
     createQueriesFromService uq um service ns = Inr queries \<and>
     map_of queries operation = Some t \<and>
     (\<forall>p. queryKey t p = Arr [Str ns, Str operation, p]) \<and>
     queryKey t Undefined = Arr [Str ns, Str operation, Undefined]"
proof -
  obtain queries where q: "createQueriesFromService uq um service ns = Inr queries"
    using compiled_total [OF assms(1,2)] by blast
  show ?thesis
    using assms(3,4) by (simp add: q compiled_lookup [OF q])
qed

theorem default_key_triple_witness:
  "\<exists>queries t.
     createQueriesFromService (\<lambda>x::jsval. x) (\<lambda>x::jsval. x)
        (Obj [(''getData'', Fn 0 0), (''postData'', Fn 1 1)]) ''testPrefix'' = Inr queries \<and>
     map_of queries ''getData'' = Some t \<and>
     queryKey t Undefined = Arr [Str ''testPrefix'', Str ''getData'', Undefined] \<and>
     queryKey t (Obj [(''name'', Str ''x'')]) =
       Arr [Str ''testPrefix'', Str ''getData'', Obj [(''name'', Str ''x'')]]"
proof -
  have "\<exists>queries t.
     createQueriesFromService (\<lambda>x::jsval. x) (\<lambda>x::jsval. x)
        (Obj [(''getData'', Fn 0 0), (''postData'', Fn 1 1)]) ''testPrefix'' = Inr queries \<and>
     map_of queries ''getData'' = Some t \<and>
     (\<forall>p. queryKey t p = Arr [Str ''testPrefix'', Str ''getData'', p]) \<and>
     queryKey t Undefined = Arr [Str ''testPrefix'', Str ''getData'', Undefined]"
    by (rule default_key_triple) (simp_all add: get_prop_def)
  then show ?thesis by blast
qed

subsection \<open>C2: keys are equal exactly when name and parameter are\<close>

text \<open>
  Claim C2. For two key functions compiled under one namespace, the keys they return
  are structurally equal if and only if the two operation names are equal and the two
  parameters are structurally equal. So equal name and parameter give equal keys, and
  a different name, or the same name with a structurally different parameter, gives
  different keys, whatever the parameters are.
\<close>

theorem compiled_keys_struct_eq_iff:
  assumes "createQueriesFromService uq um service ns = Inr queries"
    and "map_of queries op1 = Some t1"
    and "map_of queries op2 = Some t2"
  shows "struct_eq (queryKey t1 p1) (queryKey t2 p2) \<longleftrightarrow> (op1 = op2 \<and> struct_eq p1 p2)"
  using assms(2,3) unfolding compiled_lookup [OF assms(1)]
  by (auto split: if_splits)


theorem compiled_keys_struct_eq_iff_witness:
  "\<exists>queries t1 t2.
     createQueriesFromService (\<lambda>x::jsval. x) (\<lambda>x::jsval. x)
        (Obj [(''getData'', Fn 0 0), (''postData'', Fn 1 1)]) ''testPrefix'' = Inr queries \<and>
     map_of queries ''getData'' = Some t1 \<and>
     map_of queries ''postData'' = Some t2 \<and>
     struct_eq (queryKey t2 (Obj [(''name'', Str ''x''), (''age'', Num 3)]))
               (queryKey t2 (Obj [(''age'', Num 3), (''name'', Str ''x'')])) \<and>
     \<not> struct_eq (queryKey t2 (Obj [(''name'', Str ''x'')]))
                 (queryKey t2 (Obj [(''name'', Str ''y'')])) \<and>
     \<not> struct_eq (queryKey t1 Undefined) (queryKey t2 Undefined)"
proof -
  let ?svc = "Obj [(''getData'', Fn 0 0), (''postData'', Fn 1 1)]"
  obtain queries :: "(string \<times> (jsval, jsval) triad) list"
    where q: "createQueriesFromService (\<lambda>x::jsval. x) (\<lambda>x::jsval. x) ?svc ''testPrefix'' = Inr queries"
    using compiled_total [of ?svc] by blast
  obtain t1 where t1: "map_of queries ''getData'' = Some t1"
    by (simp add: compiled_lookup [OF q] get_prop_def)
  obtain t2 where t2: "map_of queries ''postData'' = Some t2"
    by (simp add: compiled_lookup [OF q] get_prop_def)
  have a: "struct_eq (queryKey t2 (Obj [(''name'', Str ''x''), (''age'', Num 3)]))
               (queryKey t2 (Obj [(''age'', Num 3), (''name'', Str ''x'')]))"
    unfolding compiled_keys_struct_eq_iff [OF q t2 t2] by auto
  have b: "\<not> struct_eq (queryKey t2 (Obj [(''name'', Str ''x'')]))
                 (queryKey t2 (Obj [(''name'', Str ''y'')]))"
    unfolding compiled_keys_struct_eq_iff [OF q t2 t2] by simp
  have c: "\<not> struct_eq (queryKey t1 Undefined) (queryKey t2 Undefined)"
    unfolding compiled_keys_struct_eq_iff [OF q t1 t2] by simp
  show ?thesis using q t1 t2 a b c by blast
qed

subsection \<open>C7: one triad for each function-valued entry, classified by arity\<close>

text \<open>
  Claim C7. Compiling a service (any value but \<open>undefined\<close> and \<open>null\<close>) returns a
  table that has a triad under a name exactly when the name is an own enumerable key of
  the service whose value is a function. The read hook of that triad is built with
  \<open>expectsParams = False\<close> when the declared parameter count of the function is 0 and
  with \<open>expectsParams = True\<close> when it is 1 or more. Entries that are not functions
  have no triad; when the keys of the service are distinct, the names of the table are
  the function-valued keys of the service in their order.
\<close>

theorem compile_function_entries:
  assumes "service \<noteq> Undefined" and "service \<noteq> Null"
  shows "\<exists>queries.
     createQueriesFromService uq um service ns = Inr queries \<and>
     (\<forall>k. map_of queries k =
        (if k \<in> set (map fst (own_props service)) \<and> typeof_function (get_prop service k) then
           Some \<lparr> useQuery = createUseQuery uq (0 < fn_length (get_prop service k))
                     (get_prop service k) (Some (\<lambda>params. Arr [Str ns, Str k, params])),
                  useMutation = createUseMutation um (get_prop service k),
                  queryKey = (\<lambda>params. Arr [Str ns, Str k, params]) \<rparr>
         else None)) \<and>
     (distinct (map fst (own_props service)) \<longrightarrow>
        map fst queries =
          filter (\<lambda>k. typeof_function (get_prop service k)) (map fst (own_props service)))"
proof -
  let ?queries = "fold (forEach_key uq um service ns) (map fst (own_props service)) []"
  have q: "createQueriesFromService uq um service ns = Inr ?queries"
    by (rule compiled_total [OF assms])
  have keys: "distinct (map fst (own_props service)) \<longrightarrow>
        map fst ?queries =
          filter (\<lambda>k. typeof_function (get_prop service k)) (map fst (own_props service))"
    using fold_forEach_keys [of "map fst (own_props service)" "[]" uq um service ns] by simp
  show ?thesis
    using q keys compiled_lookup [OF q] by blast
qed

theorem compile_function_entries_witness:
  "\<exists>queries.
     createQueriesFromService (\<lambda>x::jsval. x) (\<lambda>x::jsval. x)
       (Obj [(''getData'', Fn 0 0), (''version'', Num 3), (''postData'', Fn 1 1)]) ''testPrefix''
       = Inr queries \<and>
     map fst queries = [''getData'', ''postData''] \<and>
     map_of queries ''version'' = None \<and>
     map_option (\<lambda>t. useQuery t) (map_of queries ''getData'') =
       Some (createUseQuery (\<lambda>x. x) False (Fn 0 0)
              (Some (\<lambda>params. Arr [Str ''testPrefix'', Str ''getData'', params]))) \<and>
     map_option (\<lambda>t. useQuery t) (map_of queries ''postData'') =
       Some (createUseQuery (\<lambda>x. x) True (Fn 1 1)
              (Some (\<lambda>params. Arr [Str ''testPrefix'', Str ''postData'', params])))"
proof -
  let ?svc = "Obj [(''getData'', Fn 0 0), (''version'', Num 3), (''postData'', Fn 1 1)]"
  obtain queries :: "(string \<times> (jsval, jsval) triad) list" where
    q: "createQueriesFromService (\<lambda>x::jsval. x) (\<lambda>x::jsval. x) ?svc ''testPrefix'' = Inr queries"
    and l: "\<forall>k. map_of queries k =
        (if k \<in> set (map fst (own_props ?svc)) \<and> typeof_function (get_prop ?svc k) then
           Some \<lparr> useQuery = createUseQuery (\<lambda>x::jsval. x) (0 < fn_length (get_prop ?svc k))
                     (get_prop ?svc k) (Some (\<lambda>params. Arr [Str ''testPrefix'', Str k, params])),
                  useMutation = createUseMutation (\<lambda>x::jsval. x) (get_prop ?svc k),
                  queryKey = (\<lambda>params. Arr [Str ''testPrefix'', Str k, params]) \<rparr>
         else None)"
    and d: "distinct (map fst (own_props ?svc)) \<longrightarrow>
        map fst queries =
          filter (\<lambda>k. typeof_function (get_prop ?svc k)) (map fst (own_props ?svc))"
    using compile_function_entries [of ?svc "\<lambda>x::jsval. x" "\<lambda>x::jsval. x" "''testPrefix''"]
    by auto
  have 1: "map fst queries = [''getData'', ''postData'']"
    using d by (simp add: get_prop_def)
  have 2: "map_of queries ''version'' = None"
    by (simp add: l get_prop_def)
  have 3: "map_option (\<lambda>t. useQuery t) (map_of queries ''getData'') =
       Some (createUseQuery (\<lambda>x. x) False (Fn 0 0)
              (Some (\<lambda>params. Arr [Str ''testPrefix'', Str ''getData'', params])))"
    by (simp add: l get_prop_def)
  have 4: "map_option (\<lambda>t. useQuery t) (map_of queries ''postData'') =
       Some (createUseQuery (\<lambda>x. x) True (Fn 1 1)
              (Some (\<lambda>params. Arr [Str ''testPrefix'', Str ''postData'', params])))"
    by (simp add: l get_prop_def)
  show ?thesis by (rule exI [of _ queries]) (intro conjI q 1 2 3 4)
qed

subsection \<open>C5: a registered key function wins over the bag's key\<close>

text \<open>
  Claim C5. When a key function is registered and returns a \<^verbatim>\<open>QueryKey\<close> (an array, as
  its type says), the key of a read is that function applied to the hook's first
  argument \<open>params\<close>, whatever the options hold: the hook hands the runtime an object
  whose \<open>queryKey\<close> is that value, so a \<open>queryKey\<close> in the caller's bag is not
  consulted. The bag's \<open>queryKey\<close> is read only on the path without a key function,
  where the key is \<^verbatim>\<open>options?.queryKey || []\<close>.
\<close>

theorem key_function_precedence:
  assumes "is_QueryKey (kf p)"
  shows "computedKey (Some kf) p opts = kf p \<and>
         createUseQuery rt e f (Some kf) p opts = rt (createUseQuery (\<lambda>x. x) e f (Some kf) p opts) \<and>
         get_prop (createUseQuery (\<lambda>x. x) e f (Some kf) p opts) ''queryKey'' = kf p \<and>
         computedKey None p opts = js_or (opt_get opts ''queryKey'') (Arr [])"
  using is_QueryKey_truthy [OF assms]
  by (simp add: read_object_queryKey createUseQuery_runtime [of rt] computedKey_def js_or_def)

theorem key_function_precedence_witness:
  "get_prop (createUseQuery (\<lambda>x. x) True (Fn 1 1) (Some (\<lambda>param. Arr [Str ''custom'', param]))
      (Obj [(''name'', Str ''veljkoza'')]) (Obj [(''queryKey'', Arr [Str ''mine''])])) ''queryKey''
     = Arr [Str ''custom'', Obj [(''name'', Str ''veljkoza'')]] \<and>
   computedKey None (Obj [(''name'', Str ''veljkoza'')]) (Obj [(''queryKey'', Arr [Str ''mine''])])
     = Arr [Str ''mine'']"
  using key_function_precedence [of "\<lambda>param. Arr [Str ''custom'', param]"
      "Obj [(''name'', Str ''veljkoza'')]" "Obj [(''queryKey'', Arr [Str ''mine''])]"
      "\<lambda>x. x" True "Fn 1 1"]
  by (simp add: js_or_def opt_get_def get_prop_def)

subsection \<open>C6: which reserved names the system overwrites\<close>

text \<open>
  Claim C6 as stated fails: the execution function is written before the caller's bag is
  spread, so a bag that holds \<open>queryFn\<close> (for a read) or \<open>mutationFn\<close> (for a write)
  replaces the one the system built. Here the read of \<open>postData\<close> hands the runtime the
  caller's \<open>Fn 9 0\<close> as \<open>queryFn\<close>, not the closure over the service function, and the
  write hands it the caller's \<open>mutationFn\<close>.
\<close>

theorem reserved_options_counterexample:
  "map_option (\<lambda>t. useQuery t (Obj [(''name'', Str ''x'')])
                      (Obj [(''queryFn'', Fn 9 0), (''enabled'', Boolean False)]))
     (triad_of (createQueriesFromService (\<lambda>x. x) (\<lambda>x. x)
        (Obj [(''getData'', Fn 0 0), (''postData'', Fn 1 1)]) ''testPrefix'') ''postData'')
   = Some (Obj [(''queryFn'', Fn 9 0), (''enabled'', Boolean False),
                (''queryKey'', Arr [Str ''testPrefix'', Str ''postData'', Obj [(''name'', Str ''x'')]])]) \<and>
   Fn 9 0 \<noteq> Thunk (Fn 1 1) (Obj [(''name'', Str ''x'')]) \<and>
   map_option (\<lambda>t. useMutation t (Obj [(''mutationFn'', Fn 9 0), (''retry'', Num 2)]))
     (triad_of (createQueriesFromService (\<lambda>x. x) (\<lambda>x. x)
        (Obj [(''getData'', Fn 0 0), (''postData'', Fn 1 1)]) ''testPrefix'') ''postData'')
   = Some (Obj [(''mutationFn'', Fn 9 0), (''retry'', Num 2)]) \<and>
   Fn 9 0 \<noteq> Fn 1 1"
  by (simp add: run_defs)

text \<open>
  Claim C6, amended. In the object a read hands to the runtime, \<open>queryKey\<close> is always
  the key the system computed. The execution function is a default only: \<open>queryFn\<close>
  (for a write, \<open>mutationFn\<close>) is the bag's entry of that name when the bag has one,
  and otherwise the system's closure over the service function (for a write, the
  service function itself). Every other option of the bag is in the object unchanged,
  and the object has no further entry. The bag is the value of \<open>getOptions\<close>: the second
  argument of a one-arity hook, the first of a zero-arity one.
\<close>

theorem reserved_options_frame:
  assumes "distinct (map fst (own_props (getOptions e p opts)))"
    and "distinct (map fst (own_props mopts))"
  shows
    "createUseQuery rt e f kf p opts = rt (createUseQuery (\<lambda>x. x) e f kf p opts) \<and>
     get_prop (createUseQuery (\<lambda>x. x) e f kf p opts) ''queryKey'' = computedKey kf p opts \<and>
     get_prop (createUseQuery (\<lambda>x. x) e f kf p opts) ''queryFn'' =
       (case map_of (own_props (getOptions e p opts)) ''queryFn'' of
          Some v \<Rightarrow> v | None \<Rightarrow> Thunk f p) \<and>
     (\<forall>k. k \<noteq> ''queryKey'' \<and> k \<noteq> ''queryFn'' \<longrightarrow>
        map_of (own_props (createUseQuery (\<lambda>x. x) e f kf p opts)) k =
        map_of (own_props (getOptions e p opts)) k) \<and>
     createUseMutation rm g mopts = rm (createUseMutation (\<lambda>x. x) g mopts) \<and>
     get_prop (createUseMutation (\<lambda>x. x) g mopts) ''mutationFn'' =
       (case map_of (own_props mopts) ''mutationFn'' of Some v \<Rightarrow> v | None \<Rightarrow> g) \<and>
     (\<forall>k. k \<noteq> ''mutationFn'' \<longrightarrow>
        map_of (own_props (createUseMutation (\<lambda>x. x) g mopts)) k = map_of (own_props mopts) k)"
proof -
  have r1: "createUseQuery rt e f kf p opts = rt (createUseQuery (\<lambda>x. x) e f kf p opts)"
    by (rule createUseQuery_runtime)
  have r2: "get_prop (createUseQuery (\<lambda>x. x) e f kf p opts) ''queryKey'' = computedKey kf p opts"
    by (rule read_object_queryKey)
  have r3: "get_prop (createUseQuery (\<lambda>x. x) e f kf p opts) ''queryFn'' =
       (case map_of (own_props (getOptions e p opts)) ''queryFn'' of
          Some v \<Rightarrow> v | None \<Rightarrow> Thunk f p)"
    by (simp add: get_prop_def read_object_other [OF assms(1)] split: option.splits)
  have r4: "\<forall>k. k \<noteq> ''queryKey'' \<and> k \<noteq> ''queryFn'' \<longrightarrow>
        map_of (own_props (createUseQuery (\<lambda>x. x) e f kf p opts)) k =
        map_of (own_props (getOptions e p opts)) k"
    by (simp add: read_object_other [OF assms(1)] split: option.splits)
  have w1: "createUseMutation rm g mopts = rm (createUseMutation (\<lambda>x. x) g mopts)"
    by (rule createUseMutation_runtime)
  have w2: "get_prop (createUseMutation (\<lambda>x. x) g mopts) ''mutationFn'' =
       (case map_of (own_props mopts) ''mutationFn'' of Some v \<Rightarrow> v | None \<Rightarrow> g)"
    by (simp add: get_prop_def write_object [OF assms(2)] split: option.splits)
  have w3: "\<forall>k. k \<noteq> ''mutationFn'' \<longrightarrow>
        map_of (own_props (createUseMutation (\<lambda>x. x) g mopts)) k = map_of (own_props mopts) k"
    by (simp add: write_object [OF assms(2)] split: option.splits)
  show ?thesis
    by (intro conjI r1 r2 r3 r4 w1 w2 w3)
qed

theorem reserved_options_frame_witness:
  "get_prop (createUseQuery (\<lambda>x. x) True (Fn 1 1)
       (Some (\<lambda>params. Arr [Str ''testPrefix'', Str ''postData'', params]))
       (Obj [(''name'', Str ''x'')])
       (Obj [(''queryKey'', Arr [Str ''mine'']), (''enabled'', Boolean False)])) ''queryKey''
     = Arr [Str ''testPrefix'', Str ''postData'', Obj [(''name'', Str ''x'')]] \<and>
   get_prop (createUseQuery (\<lambda>x. x) True (Fn 1 1)
       (Some (\<lambda>params. Arr [Str ''testPrefix'', Str ''postData'', params]))
       (Obj [(''name'', Str ''x'')])
       (Obj [(''queryKey'', Arr [Str ''mine'']), (''enabled'', Boolean False)])) ''queryFn''
     = Thunk (Fn 1 1) (Obj [(''name'', Str ''x'')]) \<and>
   map_of (own_props (createUseQuery (\<lambda>x. x) True (Fn 1 1)
       (Some (\<lambda>params. Arr [Str ''testPrefix'', Str ''postData'', params]))
       (Obj [(''name'', Str ''x'')])
       (Obj [(''queryKey'', Arr [Str ''mine'']), (''enabled'', Boolean False)]))) ''enabled''
     = Some (Boolean False) \<and>
   get_prop (createUseMutation (\<lambda>x. x) (Fn 1 1) (Obj [(''retry'', Num 2)])) ''mutationFn'' = Fn 1 1 \<and>
   map_of (own_props (createUseMutation (\<lambda>x. x) (Fn 1 1) (Obj [(''retry'', Num 2)]))) ''retry''
     = Some (Num 2)"
proof -
  let ?kf = "\<lambda>params. Arr [Str ''testPrefix'', Str ''postData'', params]"
  let ?p = "Obj [(''name'', Str ''x'')]"
  let ?opts = "Obj [(''queryKey'', Arr [Str ''mine'']), (''enabled'', Boolean False)]"
  let ?mopts = "Obj [(''retry'', Num 2)]"
  have d1: "distinct (map fst (own_props (getOptions True ?p ?opts)))"
    by (simp add: getOptions_def)
  have d2: "distinct (map fst (own_props ?mopts))"
    by simp
  note fr = reserved_options_frame [OF d1 d2, of "\<lambda>x. x" "Fn 1 1" "Some ?kf" "\<lambda>x. x" "Fn 1 1"]
  have a: "get_prop (createUseQuery (\<lambda>x. x) True (Fn 1 1) (Some ?kf) ?p ?opts) ''queryKey''
      = Arr [Str ''testPrefix'', Str ''postData'', ?p]"
    using fr by (simp add: computedKey_def js_or_def)
  have b: "get_prop (createUseQuery (\<lambda>x. x) True (Fn 1 1) (Some ?kf) ?p ?opts) ''queryFn''
      = Thunk (Fn 1 1) ?p"
    using fr by (simp add: getOptions_def)
  have c: "map_of (own_props (createUseQuery (\<lambda>x. x) True (Fn 1 1) (Some ?kf) ?p ?opts)) ''enabled''
      = Some (Boolean False)"
    using fr by (simp add: getOptions_def)
  have d: "get_prop (createUseMutation (\<lambda>x. x) (Fn 1 1) ?mopts) ''mutationFn'' = Fn 1 1"
    using fr by simp
  have e: "map_of (own_props (createUseMutation (\<lambda>x. x) (Fn 1 1) ?mopts)) ''retry'' = Some (Num 2)"
    using fr by simp
  show ?thesis
    by (intro conjI a b c d e)
qed

subsection \<open>C8: what compile does with a malformed service\<close>

text \<open>
  Claim C8 as stated fails: compiling a number, a string, or an object whose only entry
  is not a function raises nothing and returns the empty table.
\<close>

theorem malformed_service_counterexample:
  "createQueriesFromService (\<lambda>x::jsval. x) (\<lambda>x::jsval. x) (Num 42) ''testPrefix'' = Inr [] \<and>
   createQueriesFromService (\<lambda>x::jsval. x) (\<lambda>x::jsval. x) (Str ''abc'') ''testPrefix'' = Inr [] \<and>
   createQueriesFromService (\<lambda>x::jsval. x) (\<lambda>x::jsval. x)
     (Obj [(''version'', Num 3)]) ''testPrefix'' = Inr []"
  by (simp add: run_defs)

text \<open>
  Claim C8, amended. Compile checks nothing about the service. It raises (the TypeError
  of \<^verbatim>\<open>Object.keys\<close>) exactly when the service is \<open>undefined\<close> or \<open>null\<close>. For every
  other value, a mapping or not, it returns normally, and the names of the returned
  table are the own enumerable keys of the value that hold a function: entries that are
  not functions are skipped without an error, and the table is empty when there is none.
\<close>

theorem compile_raises_only_on_nullish:
  "(service = Undefined \<or> service = Null \<longrightarrow>
      createQueriesFromService uq um service ns = Inl TypeError) \<and>
   (service \<noteq> Undefined \<and> service \<noteq> Null \<longrightarrow>
      (\<exists>queries. createQueriesFromService uq um service ns = Inr queries \<and>
         set (map fst queries) =
           {k \<in> set (map fst (own_props service)). typeof_function (get_prop service k)}))"
proof (intro conjI impI)
  assume "service = Undefined \<or> service = Null"
  then show "createQueriesFromService uq um service ns = Inl TypeError"
    by (auto simp add: createQueriesFromService_def)
next
  assume ok: "service \<noteq> Undefined \<and> service \<noteq> Null"
  let ?queries = "fold (forEach_key uq um service ns) (map fst (own_props service)) []"
  have q: "createQueriesFromService uq um service ns = Inr ?queries"
    using ok by (intro compiled_total) simp_all
  have "set (map fst ?queries) = dom (map_of ?queries)"
    by (simp add: dom_map_of_conv_image_fst)
  also have "\<dots> = {k \<in> set (map fst (own_props service)). typeof_function (get_prop service k)}"
    unfolding dom_def compiled_lookup [OF q] by auto
  finally show "\<exists>queries. createQueriesFromService uq um service ns = Inr queries \<and>
         set (map fst queries) =
           {k \<in> set (map fst (own_props service)). typeof_function (get_prop service k)}"
    using q by blast
qed

theorem compile_raises_only_on_nullish_witness:
  "createQueriesFromService (\<lambda>x::jsval. x) (\<lambda>x::jsval. x) Null ''testPrefix'' = Inl TypeError \<and>
   (\<exists>queries. createQueriesFromService (\<lambda>x::jsval. x) (\<lambda>x::jsval. x)
        (Arr [Fn 0 0, Num 1, Fn 1 1]) ''testPrefix'' = Inr queries \<and>
      set (map fst queries) = {''0'', ''2''})"
proof -
  have a: "createQueriesFromService (\<lambda>x::jsval. x) (\<lambda>x::jsval. x) Null ''testPrefix'' = Inl TypeError"
    using compile_raises_only_on_nullish [of Null "\<lambda>x::jsval. x" "\<lambda>x::jsval. x" "''testPrefix''"]
    by simp
  have s: "{k \<in> set (map fst (own_props (Arr [Fn 0 0, Num 1, Fn 1 1]))).
             typeof_function (get_prop (Arr [Fn 0 0, Num 1, Fn 1 1]) k)} = {''0'', ''2''}"
    by (auto simp add: get_prop_def upt_rec)
  have b: "\<exists>queries. createQueriesFromService (\<lambda>x::jsval. x) (\<lambda>x::jsval. x)
        (Arr [Fn 0 0, Num 1, Fn 1 1]) ''testPrefix'' = Inr queries \<and>
      set (map fst queries) = {''0'', ''2''}"
    using compile_raises_only_on_nullish [of "Arr [Fn 0 0, Num 1, Fn 1 1]"
        "\<lambda>x::jsval. x" "\<lambda>x::jsval. x" "''testPrefix''"]
    unfolding s by simp
  show ?thesis by (intro conjI a b)
qed

subsection \<open>C9: the key and the execution closure use the same parameter\<close>

text \<open>
  Claim C9. For a one-arity compiled operation (declared parameter count at least 1)
  and an invocation \<open>read(p, opts)\<close> whose options do not hold \<open>queryFn\<close> (their type
  omits it), the hook hands the runtime an object whose \<open>queryKey\<close> is
  \<open>[ns, operation, p]\<close> and whose \<open>queryFn\<close>, when invoked, calls the wrapped service
  function with exactly the argument list \<open>[p]\<close>: the third element of the key is the
  value the execution passes on.
\<close>

theorem key_matches_execution_argument:
  assumes "createQueriesFromService uq um service ns = Inr queries"
    and "map_of queries operation = Some t"
    and "0 < fn_length (get_prop service operation)"
    and "''queryFn'' \<notin> set (map fst (own_props opts))"
  shows
    "useQuery t p opts =
       uq (createUseQuery (\<lambda>x. x) True (get_prop service operation)
             (Some (\<lambda>params. Arr [Str ns, Str operation, params])) p opts) \<and>
     get_prop (createUseQuery (\<lambda>x. x) True (get_prop service operation)
             (Some (\<lambda>params. Arr [Str ns, Str operation, params])) p opts) ''queryKey''
       = Arr [Str ns, Str operation, p] \<and>
     invoke (get_prop (createUseQuery (\<lambda>x. x) True (get_prop service operation)
             (Some (\<lambda>params. Arr [Str ns, Str operation, params])) p opts) ''queryFn'')
       = Some (get_prop service operation, [p])"
proof -
  let ?f = "get_prop service operation"
  let ?kf = "\<lambda>params. Arr [Str ns, Str operation, params]"
  have t: "useQuery t = createUseQuery uq True ?f (Some ?kf)"
    using assms(2,3) unfolding compiled_lookup [OF assms(1)]
    by (auto split: if_splits)
  have 1: "useQuery t p opts = uq (createUseQuery (\<lambda>x. x) True ?f (Some ?kf) p opts)"
    unfolding t by (rule createUseQuery_runtime)
  have 2: "get_prop (createUseQuery (\<lambda>x. x) True ?f (Some ?kf) p opts) ''queryKey''
      = Arr [Str ns, Str operation, p]"
    by (simp add: read_object_queryKey computedKey_def js_or_def)
  have "''queryFn'' \<notin> set (map fst (own_props (getOptions True p opts)))"
    using assms(4) by (simp add: getOptions_def)
  then have 3: "invoke (get_prop (createUseQuery (\<lambda>x. x) True ?f (Some ?kf) p opts) ''queryFn'')
      = Some (?f, [p])"
    by (simp add: read_object_queryFn_default)
  show ?thesis by (intro conjI 1 2 3)
qed

theorem key_matches_execution_argument_witness:
  "\<exists>queries t.
     createQueriesFromService (\<lambda>x::jsval. x) (\<lambda>x::jsval. x)
        (Obj [(''getData'', Fn 0 0), (''postData'', Fn 1 1)]) ''testPrefix'' = Inr queries \<and>
     map_of queries ''postData'' = Some t \<and>
     get_prop (useQuery t (Obj [(''name'', Str ''x'')]) (Obj [(''enabled'', Boolean False)])) ''queryKey''
       = Arr [Str ''testPrefix'', Str ''postData'', Obj [(''name'', Str ''x'')]] \<and>
     invoke (get_prop (useQuery t (Obj [(''name'', Str ''x'')]) (Obj [(''enabled'', Boolean False)]))
               ''queryFn'')
       = Some (Fn 1 1, [Obj [(''name'', Str ''x'')]])"
proof -
  let ?svc = "Obj [(''getData'', Fn 0 0), (''postData'', Fn 1 1)]"
  let ?p = "Obj [(''name'', Str ''x'')]"
  let ?opts = "Obj [(''enabled'', Boolean False)]"
  obtain queries :: "(string \<times> (jsval, jsval) triad) list"
    where q: "createQueriesFromService (\<lambda>x::jsval. x) (\<lambda>x::jsval. x) ?svc ''testPrefix'' = Inr queries"
    using compiled_total [of ?svc] by blast
  obtain t where t: "map_of queries ''postData'' = Some t"
    by (simp add: compiled_lookup [OF q] get_prop_def)
  have len: "0 < fn_length (get_prop ?svc ''postData'')"
    by (simp add: get_prop_def)
  have nq: "''queryFn'' \<notin> set (map fst (own_props ?opts))"
    by simp
  have f: "get_prop ?svc ''postData'' = Fn 1 1"
    by (simp add: get_prop_def)
  note th = key_matches_execution_argument [OF q t len nq, of ?p, unfolded f]
  have a: "get_prop (useQuery t ?p ?opts) ''queryKey'' = Arr [Str ''testPrefix'', Str ''postData'', ?p]"
    using th by simp
  have b: "invoke (get_prop (useQuery t ?p ?opts) ''queryFn'') = Some (Fn 1 1, [?p])"
    using th by simp
  show ?thesis
    by (rule exI [of _ queries], rule exI [of _ t]) (intro conjI q t a b)
qed

subsection \<open>C3: what a zero-arity read passes to the service function\<close>

text \<open>
  Claim C3 at \<open>read({enabled: true})\<close> on the zero-arity operation \<open>getData\<close>: the
  execution function handed to the runtime is \<^verbatim>\<open>() => serviceFn(params)\<close> with \<open>params\<close>
  bound to the hook's first argument, which for a zero-arity hook is the options bag.
  Invoking it calls the service function with the bag as its argument, not with no
  parameter; the bag itself does reach the runtime (\<open>enabled\<close> is forwarded). Only a
  read without any argument calls the service function with \<open>undefined\<close>.
\<close>

theorem zero_arity_read_passes_options_to_service:
  "map_option (\<lambda>t. invoke (get_prop (useQuery t (Obj [(''enabled'', Boolean True)]) Undefined)
                              ''queryFn''))
     (triad_of (createQueriesFromService (\<lambda>x. x) (\<lambda>x. x)
        (Obj [(''getData'', Fn 0 0), (''postData'', Fn 1 1)]) ''testPrefix'') ''getData'')
   = Some (Some (Fn 0 0, [Obj [(''enabled'', Boolean True)]])) \<and>
   map_option (\<lambda>t. get_prop (useQuery t (Obj [(''enabled'', Boolean True)]) Undefined) ''enabled'')
     (triad_of (createQueriesFromService (\<lambda>x. x) (\<lambda>x. x)
        (Obj [(''getData'', Fn 0 0), (''postData'', Fn 1 1)]) ''testPrefix'') ''getData'')
   = Some (Boolean True) \<and>
   map_option (\<lambda>t. invoke (get_prop (useQuery t Undefined Undefined) ''queryFn''))
     (triad_of (createQueriesFromService (\<lambda>x. x) (\<lambda>x. x)
        (Obj [(''getData'', Fn 0 0), (''postData'', Fn 1 1)]) ''testPrefix'') ''getData'')
   = Some (Some (Fn 0 0, [Undefined]))"
  by (simp add: run_defs)

subsection \<open>C4: the key of a zero-arity read that is given options\<close>

text \<open>
  Claim C4 at \<open>read({enabled: true})\<close> on the zero-arity operation \<open>getData\<close>: the key
  function is applied to the hook's first argument before the arity flag is looked at,
  so the key handed to the runtime is \<open>[testPrefix, getData, {enabled: true}]\<close>, with
  the options bag in the parameter slot, while the triad's own key function gives
  \<open>[testPrefix, getData, undefined]\<close> for the same operation.
\<close>

theorem zero_arity_read_key_embeds_options:
  "map_option (\<lambda>t. get_prop (useQuery t (Obj [(''enabled'', Boolean True)]) Undefined) ''queryKey'')
     (triad_of (createQueriesFromService (\<lambda>x. x) (\<lambda>x. x)
        (Obj [(''getData'', Fn 0 0), (''postData'', Fn 1 1)]) ''testPrefix'') ''getData'')
   = Some (Arr [Str ''testPrefix'', Str ''getData'', Obj [(''enabled'', Boolean True)]]) \<and>
   map_option (\<lambda>t. queryKey t Undefined)
     (triad_of (createQueriesFromService (\<lambda>x::jsval. x) (\<lambda>x::jsval. x)
        (Obj [(''getData'', Fn 0 0), (''postData'', Fn 1 1)]) ''testPrefix'') ''getData'')
   = Some (Arr [Str ''testPrefix'', Str ''getData'', Undefined])"
  by (simp add: run_defs)

subsection \<open>C10: the key of a hook built without a key function\<close>

text \<open>
  Claim C10. A hook built by \<open>createUseQuery\<close> without a key function (in either file:
  the positional one and the one under \<^verbatim>\<open>lib/\<close> that takes a settings object) hands the
  runtime the key \<^verbatim>\<open>options?.queryKey || []\<close>, where \<open>options\<close> is the hook's second
  argument: that \<open>queryKey\<close> when it is there (a \<^verbatim>\<open>QueryKey\<close>, an array), and the empty
  array when it is absent. So two such hooks called without an \<open>options.queryKey\<close>
  hand over the same key \<open>[]\<close>, whatever service functions, arity flags and parameters
  they have.
\<close>

theorem direct_use_key_fallback:
  assumes "p_queryKey cfg = None"
  shows
    "(is_QueryKey (opt_get opts ''queryKey'') \<longrightarrow>
        get_prop (createUseQuery (\<lambda>x. x) e f None p opts) ''queryKey'' = opt_get opts ''queryKey'' \<and>
        get_prop (lib_createUseQuery (\<lambda>x. x) cfg p opts) ''queryKey'' = opt_get opts ''queryKey'') \<and>
     (opt_get opts ''queryKey'' = Undefined \<longrightarrow>
        get_prop (createUseQuery (\<lambda>x. x) e f None p opts) ''queryKey'' = Arr [] \<and>
        get_prop (lib_createUseQuery (\<lambda>x. x) cfg p opts) ''queryKey'' = Arr []) \<and>
     (opt_get opts ''queryKey'' = Undefined \<and> opt_get opts' ''queryKey'' = Undefined \<longrightarrow>
        get_prop (createUseQuery (\<lambda>x. x) e f None p opts) ''queryKey'' =
        get_prop (createUseQuery (\<lambda>x. x) e' f' None p' opts') ''queryKey'')"
  using assms
  by (auto simp add: lib_createUseQuery_eq read_object_queryKey computedKey_None js_or_def
        dest: is_QueryKey_truthy)

theorem direct_use_key_fallback_witness:
  "get_prop (createUseQuery (\<lambda>x. x) False (Fn 0 0) None Undefined Undefined) ''queryKey'' = Arr [] \<and>
   get_prop (createUseQuery (\<lambda>x. x) True (Fn 1 1) None (Obj [(''name'', Str ''x'')]) Undefined)
     ''queryKey'' = Arr [] \<and>
   get_prop (lib_createUseQuery (\<lambda>x. x)
       \<lparr> p_expectsParams = False, p_serviceFn = Fn 0 0, p_queryKey = None \<rparr> Undefined Undefined)
     ''queryKey'' = Arr [] \<and>
   get_prop (createUseQuery (\<lambda>x. x) True (Fn 1 1) None (Obj [(''name'', Str ''x'')])
       (Obj [(''queryKey'', Arr [Str ''mine''])])) ''queryKey'' = Arr [Str ''mine'']"
proof -
  let ?cfg = "\<lparr> p_expectsParams = False, p_serviceFn = Fn 0 0, p_queryKey = None \<rparr>"
  have c: "p_queryKey ?cfg = None" by simp
  have u: "opt_get Undefined ''queryKey'' = Undefined" by (simp add: opt_get_def)
  have m: "opt_get (Obj [(''queryKey'', Arr [Str ''mine''])]) ''queryKey'' = Arr [Str ''mine'']"
    by (simp add: opt_get_def get_prop_def)
  note a = direct_use_key_fallback [OF c, of Undefined False "Fn 0 0" Undefined Undefined]
  note b = direct_use_key_fallback [OF c, of Undefined True "Fn 1 1" "Obj [(''name'', Str ''x'')]"]
  note d = direct_use_key_fallback [OF c, of "Obj [(''queryKey'', Arr [Str ''mine''])]"
             True "Fn 1 1" "Obj [(''name'', Str ''x'')]"]
  have 1: "get_prop (createUseQuery (\<lambda>x. x) False (Fn 0 0) None Undefined Undefined) ''queryKey'' = Arr []"
    using a u by simp
  have 2: "get_prop (createUseQuery (\<lambda>x. x) True (Fn 1 1) None (Obj [(''name'', Str ''x'')]) Undefined)
     ''queryKey'' = Arr []"
    using b u by simp
  have 3: "get_prop (lib_createUseQuery (\<lambda>x. x) ?cfg Undefined Undefined) ''queryKey'' = Arr []"
    using a u by simp
  have 4: "get_prop (createUseQuery (\<lambda>x. x) True (Fn 1 1) None (Obj [(''name'', Str ''x'')])
       (Obj [(''queryKey'', Arr [Str ''mine''])])) ''queryKey'' = Arr [Str ''mine'']"
    using d m by simp
  show ?thesis by (intro conjI 1 2 3 4)
qed

end
